theory Spec2Isabelle
  imports Complex_Main "HOL-Library.Sublist"
begin

section \<open>Wire shapes of the OpenAI chat-completions dialect\<close>

text \<open>
  The parsers of \<^verbatim>\<open>openai.parser.ts\<close> work on the object that
  \<^verbatim>\<open>JSON.parse\<close> and the schema validation return; the model starts from that
  decoded object.

  Modelled from the spec: the schemas \<^verbatim>\<open>ChunkResponse_schema\<close> and
  \<^verbatim>\<open>Response_schema\<close> of \<^verbatim>\<open>openai.wiretypes\<close> are not among the
  sources. The records below follow the wire shapes that the spec lists and the fields
  that the parsers read. An optional field is an \<open>option\<close> (\<open>None\<close> is JavaScript's
  \<^verbatim>\<open>undefined\<close>), token counts are integers, the completion time is the
  rational number that the decoded double stands for, the index of a tool call is a
  natural number, a warning is kept as its text, and an error is a structured object,
  hence truthy when present. Only the content of a delta can be \<^verbatim>\<open>null\<close>; a
  content that is neither a string nor null nor undefined is \<open>ContentOther\<close> with
  the name of its type.
\<close>

datatype js_content =
  ContentUndefined
| ContentNull
| ContentString string
| ContentOther string

record delta_function =
  fn_name :: "string option"
  fn_arguments :: "string option"

record delta_tool_call =
  tc_index :: "nat option"
  tc_id :: "string option"
  tc_type :: "string option"
  tc_function :: delta_function

record chunk_delta =
  content :: js_content
  tool_calls :: "delta_tool_call list option"

record chunk_choice =
  index :: "int option"
  delta :: "chunk_delta option"
  finish_reason :: "string option"

record wire_usage =
  prompt_tokens :: "int option"
  completion_tokens :: "int option"

record groq_usage =
  groq_prompt_tokens :: int
  groq_completion_tokens :: int
  groq_completion_time :: rat

record wire_x_groq =
  groq_usage :: "groq_usage option"

record wire_error =
  err_message :: "string option"

record chunk =
  model :: "string option"
  error :: "wire_error option"
  warning :: "string option"
  chunk_id :: "string option"
  object :: "string option"
  usage :: "wire_usage option"
  x_groq :: "wire_x_groq option"
  choices :: "chunk_choice list"

section \<open>The sink and the errors\<close>

text \<open>
  Modelled from the spec: the sink interface \<^verbatim>\<open>IPartTransmitter\<close> and the
  symbol \<^verbatim>\<open>IssueSymbols.Generic\<close> are not among the sources. A sink call is
  recorded as the name of the method with its arguments, as the parsers call it;
  \<open>IncrStr\<close> is the mode \<^verbatim>\<open>'incr_str'\<close>. What the parsers write to the console
  is not recorded. The errors are the \<^verbatim>\<open>Error\<close>s that the parsers throw, with
  the value their message quotes.
\<close>

text \<open>
  The output rate that the Groq step reports is the double that
  \<^verbatim>\<open>Math.round((completion_tokens / completion_time) * 100) / 100\<close> evaluates to.
  The arithmetic of doubles is not modelled: division, product and rounding are not
  carried out, and the rate is kept as this expression of its two operands, the
  completion tokens and the completion time.
\<close>

datatype output_rate = Rounded_ratio int rat

record counters =
  chatIn :: int
  chatOut :: int
  chatOutRate :: "output_rate option"
  chatTimeInner :: "rat option"

datatype issue_symbol = Generic

datatype args_mode = IncrStr

datatype sink_call =
  SetModelName string
| SetDialectTerminatingIssue string issue_symbol
| SetCounters counters
| AppendText string
| StartFunctionToolCall string string args_mode string
| AppendFunctionToolCallArgsIStr string string
| EndMessagePart

datatype parse_error =
  ExpectedOneCompletion nat
| ExpectedCompletionIndexZero int
| MissingContent "string option"
| UnexpectedContentType string
| UnexpectedToolCallType string
| ToolCallIdChange string
| ToolCallNameChange string

section \<open>JavaScript helpers\<close>

text \<open>A string is truthy when it is defined and not empty.\<close>

definition truthy :: "string option \<Rightarrow> bool" where
  "truthy s = (case s of None \<Rightarrow> False | Some v \<Rightarrow> v \<noteq> [])"

text \<open>\<^verbatim>\<open>s || d\<close> on an optional string.\<close>

definition or_else :: "string option \<Rightarrow> string \<Rightarrow> string" where
  "or_else s d = (case s of None \<Rightarrow> d | Some v \<Rightarrow> if v = [] then d else v)"

text \<open>
  A sparse array: a hole and an index past the end both read \<^verbatim>\<open>undefined\<close>, and
  a write past the end extends the array with holes.
\<close>

definition js_get :: "'a option list \<Rightarrow> nat \<Rightarrow> 'a option" where
  "js_get xs i = (if i < length xs then xs ! i else None)"

definition js_set :: "'a option list \<Rightarrow> nat \<Rightarrow> 'a \<Rightarrow> 'a option list" where
  "js_set xs i v =
     (if i < length xs then xs[i := Some v]
      else xs @ replicate (i - length xs) None @ [Some v])"

section \<open>The streaming parser\<close>

record tool_call_state =
  call_id :: string
  call_name :: string
  call_arguments :: string

record parser_state =
  hasBegun :: bool
  hasWarned :: bool
  acc_content :: "string option"
  acc_tool_calls :: "tool_call_state option list"

definition initial_state :: parser_state where
  "initial_state =
     \<lparr>hasBegun = False, hasWarned = False, acc_content = None, acc_tool_calls = []\<rparr>"

text \<open>
  What one call of the parser leaves behind: the state (mutations made before a throw
  stay), the sink calls in the order they were made, and the error thrown, if any.
\<close>

record outcome =
  after :: parser_state
  sink :: "sink_call list"
  thrown :: "parse_error option"

definition returned :: "parser_state \<Rightarrow> sink_call list \<Rightarrow> outcome" where
  "returned s cs = \<lparr>after = s, sink = cs, thrown = None\<rparr>"

definition threw :: "parser_state \<Rightarrow> sink_call list \<Rightarrow> parse_error \<Rightarrow> outcome" where
  "threw s cs e = \<lparr>after = s, sink = cs, thrown = Some e\<rparr>"

text \<open>Sink calls made earlier come first.\<close>

definition preceded_by :: "sink_call list \<Rightarrow> outcome \<Rightarrow> outcome" where
  "preceded_by cs r = r\<lparr>sink := cs @ sink r\<rparr>"

text \<open>
  The loop over \<^verbatim>\<open>delta.tool_calls\<close>. \<open>fresh\<close> is the identifier that
  \<^verbatim>\<open>serverSideId\<close> returns when it is called during this event (the loop
  breaks after a creation, so it is called at most once).
\<close>

definition resolve_index :: "parser_state \<Rightarrow> delta_tool_call \<Rightarrow> nat" where
  "resolve_index s tc =
     (case tc_index tc of Some i \<Rightarrow> i | None \<Rightarrow> length (acc_tool_calls s))"

definition bad_type :: "delta_tool_call \<Rightarrow> bool" where
  "bad_type tc = (case tc_type tc of None \<Rightarrow> False | Some t \<Rightarrow> t \<noteq> ''function'')"

definition create_call :: "string \<Rightarrow> delta_tool_call \<Rightarrow> tool_call_state" where
  "create_call fresh tc =
     \<lparr>call_id = or_else (tc_id tc) fresh,
      call_name = or_else (fn_name (tc_function tc)) [],
      call_arguments = or_else (fn_arguments (tc_function tc)) []\<rparr>"

fun tool_calls_loop :: "string \<Rightarrow> parser_state \<Rightarrow> delta_tool_call list \<Rightarrow> outcome" where
  "tool_calls_loop fresh s [] = returned s []"
| "tool_calls_loop fresh s (tc # tcs) =
     (if bad_type tc then threw s [] (UnexpectedToolCallType (the (tc_type tc)))
      else
        let tcIndex = resolve_index s tc in
        case js_get (acc_tool_calls s) tcIndex of
          None \<Rightarrow>
            let created = create_call fresh tc in
            returned (s\<lparr>acc_tool_calls := js_set (acc_tool_calls s) tcIndex created\<rparr>)
              [StartFunctionToolCall (call_id created) (call_name created) IncrStr
                 (call_arguments created)]
        | Some accumulated \<Rightarrow>
            if truthy (tc_id tc) \<and> the (tc_id tc) \<noteq> call_id accumulated
            then threw s [] (ToolCallIdChange (the (tc_id tc)))
            else if truthy (fn_name (tc_function tc))
            then threw s [] (ToolCallNameChange (the (fn_name (tc_function tc))))
            else if truthy (fn_arguments (tc_function tc))
            then
              let frag = the (fn_arguments (tc_function tc));
                  upd = accumulated\<lparr>call_arguments := call_arguments accumulated @ frag\<rparr>
              in preceded_by [AppendFunctionToolCallArgsIStr (call_id accumulated) frag]
                   (tool_calls_loop fresh
                      (s\<lparr>acc_tool_calls := (acc_tool_calls s)[tcIndex := Some upd]\<rparr>) tcs)
            else tool_calls_loop fresh s tcs)"

text \<open>The body of the loop over \<^verbatim>\<open>json.choices\<close>, for one choice.\<close>

definition delta_text :: "parser_state \<Rightarrow> chunk_delta \<Rightarrow> outcome" where
  "delta_text s d =
     (case content d of
        ContentString f \<Rightarrow>
          returned (s\<lparr>acc_content := Some (or_else (acc_content s) [] @ f)\<rparr>) [AppendText f]
      | ContentOther ty \<Rightarrow> threw s [] (UnexpectedContentType ty)
      | _ \<Rightarrow> returned s [])"

definition parse_choice :: "string \<Rightarrow> parser_state \<Rightarrow> chunk_choice \<Rightarrow> outcome" where
  "parse_choice fresh s ch =
     (if index ch \<noteq> Some 0 \<and> index ch \<noteq> None
      then threw s [] (ExpectedCompletionIndexZero (the (index ch)))
      else case delta ch of
        None \<Rightarrow> threw s [] (MissingContent (finish_reason ch))
      | Some d \<Rightarrow>
          let r = delta_text s d in
          if thrown r \<noteq> None then r
          else preceded_by (sink r)
                 (tool_calls_loop fresh (after r)
                    (case tool_calls d of None \<Rightarrow> [] | Some tcs \<Rightarrow> tcs)))"

text \<open>The steps before the choices.\<close>

definition report_model :: "parser_state \<Rightarrow> chunk \<Rightarrow> outcome" where
  "report_model s json =
     (if \<not> hasBegun s \<and> truthy (model json)
      then returned (s\<lparr>hasBegun := True\<rparr>) [SetModelName (the (model json))]
      else returned s [])"

definition note_warning :: "parser_state \<Rightarrow> chunk \<Rightarrow> parser_state" where
  "note_warning s json =
     (if truthy (warning json) \<and> \<not> hasWarned s then s\<lparr>hasWarned := True\<rparr> else s)"

definition is_sentinel :: "chunk \<Rightarrow> bool" where
  "is_sentinel json =
     (chunk_id json = Some [] \<and> object json = Some [] \<and> model json = Some [])"

definition usage_counters :: "chunk \<Rightarrow> sink_call list" where
  "usage_counters json =
     (case usage json of
        None \<Rightarrow> []
      | Some u \<Rightarrow>
          (case completion_tokens u of
             None \<Rightarrow> []
           | Some out \<Rightarrow>
               [SetCounters
                  \<lparr>chatIn = (case prompt_tokens u of
                               None \<Rightarrow> - 1
                             | Some p \<Rightarrow> if p = 0 then - 1 else p),
                   chatOut = out, chatOutRate = None, chatTimeInner = None\<rparr>]))"

definition groq_counters :: "chunk \<Rightarrow> sink_call list" where
  "groq_counters json =
     (case x_groq json of
        None \<Rightarrow> []
      | Some g \<Rightarrow>
          (case groq_usage g of
             None \<Rightarrow> []
           | Some u \<Rightarrow>
               [SetCounters
                  \<lparr>chatIn = groq_prompt_tokens u,
                   chatOut = groq_completion_tokens u,
                   chatOutRate =
                     (if groq_completion_tokens u \<noteq> 0 \<and> groq_completion_time u \<noteq> 0
                      then Some (Rounded_ratio (groq_completion_tokens u)
                                   (groq_completion_time u))
                      else None),
                   chatTimeInner = Some (groq_completion_time u)\<rparr>]))"

text \<open>
  One call of the function that \<^verbatim>\<open>createOpenAIChatCompletionsChunkParser\<close>
  returns. \<open>ses\<close> stands for \<^verbatim>\<open>safeErrorString\<close>, which is imported from
  another module: it maps an error object to a string or to \<^verbatim>\<open>null\<close>.
\<close>

definition parse_chunk ::
  "(wire_error \<Rightarrow> string option) \<Rightarrow> string \<Rightarrow> parser_state \<Rightarrow> chunk \<Rightarrow> outcome" where
  "parse_chunk ses fresh s json =
     (let m = report_model s json in
      case error json of
        Some e \<Rightarrow>
          returned (after m)
            (sink m @ [SetDialectTerminatingIssue (or_else (ses e) ''unknown.'') Generic])
      | None \<Rightarrow>
          let s1 = note_warning (after m) json in
          if is_sentinel json then returned s1 (sink m)
          else
            let stats = sink m @ usage_counters json in
            if usage json \<noteq> None \<and> choices json = [] then returned s1 stats
            else
              let stats2 = stats @ groq_counters json in
              case choices json of
                [ch] \<Rightarrow> preceded_by stats2 (parse_choice fresh s1 ch)
              | _ \<Rightarrow> threw s1 stats2 (ExpectedOneCompletion (length (choices json))))"

text \<open>
  A session: the events in arrival order, each with the identifier the id service would
  hand out during it. The transport stops calling the parser after a throw.
\<close>

fun run :: "(wire_error \<Rightarrow> string option) \<Rightarrow> parser_state \<Rightarrow> (string \<times> chunk) list \<Rightarrow> outcome" where
  "run ses s [] = returned s []"
| "run ses s ((fresh, json) # evs) =
     (let r = parse_chunk ses fresh s json in
      if thrown r \<noteq> None then r
      else preceded_by (sink r) (run ses (after r) evs))"

section \<open>The non-streaming parser\<close>

record ns_function =
  ns_fn_name :: string
  ns_fn_arguments :: string

record ns_tool_call =
  ns_tc_id :: string
  ns_tc_type :: "string option"
  ns_tc_function :: ns_function

record ns_message =
  ns_content :: js_content
  ns_tool_calls :: "ns_tool_call list option"

record ns_choice =
  ns_index :: int
  ns_message :: "ns_message option"
  ns_finish_reason :: "string option"

record ns_usage =
  ns_prompt_tokens :: int
  ns_completion_tokens :: int

record response =
  ns_model :: "string option"
  ns_error :: "wire_error option"
  ns_warning :: "string option"
  ns_usage :: "ns_usage option"
  ns_choices :: "ns_choice list"

text \<open>
  The non-streaming parser keeps no state between calls: its result is the sink calls and
  the error thrown, if any.
\<close>

type_synonym ns_outcome = "sink_call list \<times> parse_error option"

fun ns_tool_calls_loop :: "ns_tool_call list \<Rightarrow> ns_outcome" where
  "ns_tool_calls_loop [] = ([], None)"
| "ns_tool_calls_loop (tc # tcs) =
     (case ns_tc_type tc of
        Some t \<Rightarrow>
          if t \<noteq> ''function'' then ([], Some (UnexpectedToolCallType t))
          else
            (let (cs, e) = ns_tool_calls_loop tcs in
             (StartFunctionToolCall (ns_tc_id tc) (ns_fn_name (ns_tc_function tc)) IncrStr
                (ns_fn_arguments (ns_tc_function tc)) # EndMessagePart # cs, e))
      | None \<Rightarrow>
          (let (cs, e) = ns_tool_calls_loop tcs in
           (StartFunctionToolCall (ns_tc_id tc) (ns_fn_name (ns_tc_function tc)) IncrStr
              (ns_fn_arguments (ns_tc_function tc)) # EndMessagePart # cs, e)))"

definition ns_parse_choice :: "ns_choice \<Rightarrow> ns_outcome" where
  "ns_parse_choice ch =
     (if ns_index ch \<noteq> 0 then ([], Some (ExpectedCompletionIndexZero (ns_index ch)))
      else case ns_message ch of
        None \<Rightarrow> ([], Some (MissingContent (ns_finish_reason ch)))
      | Some m \<Rightarrow>
          (case ns_content m of
             ContentOther ty \<Rightarrow> ([], Some (UnexpectedContentType ty))
           | c \<Rightarrow>
               (let txt = (case c of ContentString f \<Rightarrow> if f \<noteq> [] then [AppendText f] else []
                                   | _ \<Rightarrow> []);
                    (cs, e) = ns_tool_calls_loop
                                (case ns_tool_calls m of None \<Rightarrow> [] | Some tcs \<Rightarrow> tcs)
                in (txt @ cs, e))))"

definition parse_response :: "response \<Rightarrow> ns_outcome" where
  "parse_response json =
     (let named = (if truthy (ns_model json) then [SetModelName (the (ns_model json))] else []);
          stats = (case ns_usage json of
                     None \<Rightarrow> []
                   | Some u \<Rightarrow>
                       [SetCounters \<lparr>chatIn = ns_prompt_tokens u, chatOut = ns_completion_tokens u,
                                     chatOutRate = None, chatTimeInner = None\<rparr>])
      in case ns_choices json of
           [ch] \<Rightarrow> (let (cs, e) = ns_parse_choice ch in (named @ stats @ cs, e))
         | _ \<Rightarrow> (named @ stats, Some (ExpectedOneCompletion (length (ns_choices json)))))"

section \<open>Observing the sink\<close>

definition is_set_model_name :: "sink_call \<Rightarrow> bool" where
  "is_set_model_name c = (case c of SetModelName _ \<Rightarrow> True | _ \<Rightarrow> False)"

definition is_terminating_issue :: "sink_call \<Rightarrow> bool" where
  "is_terminating_issue c = (case c of SetDialectTerminatingIssue _ _ \<Rightarrow> True | _ \<Rightarrow> False)"

definition is_append_text :: "sink_call \<Rightarrow> bool" where
  "is_append_text c = (case c of AppendText _ \<Rightarrow> True | _ \<Rightarrow> False)"

definition is_tool_call :: "sink_call \<Rightarrow> bool" where
  "is_tool_call c =
     (case c of StartFunctionToolCall _ _ _ _ \<Rightarrow> True
              | AppendFunctionToolCallArgsIStr _ _ \<Rightarrow> True
              | _ \<Rightarrow> False)"

definition is_args_append :: "sink_call \<Rightarrow> bool" where
  "is_args_append c = (case c of AppendFunctionToolCallArgsIStr _ _ \<Rightarrow> True | _ \<Rightarrow> False)"

section \<open>The error stringifier\<close>

text \<open>
  Modelled from the spec: \<^verbatim>\<open>safeErrorString\<close> of the module
  \<^verbatim>\<open>~/server/wire\<close> is not among the sources. The spec describes the string
  handed to the sink as the best-effort stringified error message, and for the error
  object \<^verbatim>\<open>{message: "rate limited"}\<close> a string containing that message. The model
  returns the message of the error object when it has one and \<^verbatim>\<open>null\<close> otherwise.
\<close>

definition safeErrorString :: "wire_error \<Rightarrow> string option" where
  "safeErrorString e = err_message e"

section \<open>Notions the statements use\<close>

text \<open>The string fragment that the single choice of a chunk carries, if any.\<close>

definition text_fragment :: "chunk \<Rightarrow> string option" where
  "text_fragment json =
     (case choices json of
        [ch] \<Rightarrow>
          (case delta ch of
             None \<Rightarrow> None
           | Some d \<Rightarrow> (case content d of ContentString f \<Rightarrow> Some f | _ \<Rightarrow> None))
      | _ \<Rightarrow> None)"

text \<open>
  The entries of \<^verbatim>\<open>delta.tool_calls\<close> that the loop runs on, for an event that
  gets as far as the loop: no upstream error, not the bookkeeping event, exactly one
  choice, with index 0 or none, a delta, and a content that is a string, null or
  undefined. \<open>None\<close> for every other event.
\<close>

definition tool_call_entries :: "chunk \<Rightarrow> delta_tool_call list option" where
  "tool_call_entries json =
     (if error json \<noteq> None \<or> is_sentinel json then None
      else case choices json of
        [ch] \<Rightarrow>
          (if index ch \<noteq> Some 0 \<and> index ch \<noteq> None then None
           else case delta ch of
             None \<Rightarrow> None
           | Some d \<Rightarrow>
               (case content d of
                  ContentOther _ \<Rightarrow> None
                | _ \<Rightarrow> Some (case tool_calls d of None \<Rightarrow> [] | Some tcs \<Rightarrow> tcs)))
      | _ \<Rightarrow> None)"

definition event_entries :: "chunk \<Rightarrow> delta_tool_call list" where
  "event_entries json = (case tool_call_entries json of None \<Rightarrow> [] | Some tcs \<Rightarrow> tcs)"

text \<open>The same event with another list of tool-call entries in its deltas.\<close>

definition with_tool_calls :: "chunk \<Rightarrow> delta_tool_call list \<Rightarrow> chunk" where
  "with_tool_calls json tcs =
     json\<lparr>choices :=
            map (\<lambda>ch. ch\<lparr>delta := map_option (\<lambda>d. d\<lparr>tool_calls := Some tcs\<rparr>) (delta ch)\<rparr>)
              (choices json)\<rparr>"

text \<open>An entry addresses an existing tool call when the accumulator has an entry at its index.\<close>

definition addresses_existing :: "parser_state \<Rightarrow> delta_tool_call \<Rightarrow> bool" where
  "addresses_existing s tc = (js_get (acc_tool_calls s) (resolve_index s tc) \<noteq> None)"

text \<open>
  The entries of an event's list that the loop looks at when nothing is thrown: those
  up to and including the first one that addresses an index without an entry.
\<close>

fun examined :: "parser_state \<Rightarrow> delta_tool_call list \<Rightarrow> delta_tool_call list" where
  "examined s [] = []"
| "examined s (tc # tcs) =
     (if addresses_existing s tc then tc # examined s tcs else [tc])"

text \<open>The argument text of an entry: \<^verbatim>\<open>function.arguments || ''\<close>.\<close>

definition entry_arguments :: "delta_tool_call \<Rightarrow> string" where
  "entry_arguments tc = or_else (fn_arguments (tc_function tc)) []"

text \<open>
  The argument texts for index \<open>i\<close> among the examined entries, of one event and of
  a session, in arrival order; and the arguments the accumulator records for index \<open>i\<close>.
\<close>

definition fragments_for :: "nat \<Rightarrow> parser_state \<Rightarrow> delta_tool_call list \<Rightarrow> string list" where
  "fragments_for i s tcs =
     map entry_arguments (filter (\<lambda>tc. resolve_index s tc = i) (examined s tcs))"


definition recorded_arguments :: "parser_state \<Rightarrow> nat \<Rightarrow> string option" where
  "recorded_arguments s i = map_option call_arguments (js_get (acc_tool_calls s) i)"

text \<open>
  The argument appends that the examined entries stand for: one for each entry that
  addresses an existing tool call and carries a non-empty argument text, with the id
  of that tool call.
\<close>

definition entry_append :: "parser_state \<Rightarrow> delta_tool_call \<Rightarrow> sink_call list" where
  "entry_append s tc =
     (case js_get (acc_tool_calls s) (resolve_index s tc) of
        None \<Rightarrow> []
      | Some e \<Rightarrow>
          if entry_arguments tc = [] then []
          else [AppendFunctionToolCallArgsIStr (call_id e) (entry_arguments tc)])"

definition appends_for :: "parser_state \<Rightarrow> delta_tool_call list \<Rightarrow> sink_call list" where
  "appends_for s tcs = concat (map (entry_append s) (examined s tcs))"


text \<open>
  The arguments of index \<open>i\<close> as the spec words them: the argument text of the first
  entry addressed to \<open>i\<close> in the session (the seed), followed by every later non-empty
  argument text addressed to \<open>i\<close>.
\<close>

definition delta_entries :: "chunk \<Rightarrow> delta_tool_call list" where
  "delta_entries json =
     concat (map (\<lambda>ch. case delta ch of
                           None \<Rightarrow> []
                         | Some d \<Rightarrow> (case tool_calls d of None \<Rightarrow> [] | Some tcs \<Rightarrow> tcs))
               (choices json))"

definition addressed_fragments :: "nat \<Rightarrow> (string \<times> chunk) list \<Rightarrow> string list" where
  "addressed_fragments i evs =
     concat (map (\<lambda>ev. map entry_arguments
                          (filter (\<lambda>tc. tc_index tc = Some i) (delta_entries (snd ev))))
               evs)"

definition specified_arguments :: "nat \<Rightarrow> (string \<times> chunk) list \<Rightarrow> string option" where
  "specified_arguments i evs =
     (case addressed_fragments i evs of
        [] \<Rightarrow> None
      | seed # frs \<Rightarrow> Some (seed @ concat (filter (\<lambda>f. f \<noteq> []) frs)))"


section \<open>Notions the proofs use\<close>

text \<open>What an event that gets as far as the tool-call loop has done before the loop.\<close>

definition before_tool_calls :: "parser_state \<Rightarrow> chunk \<Rightarrow> outcome" where
  "before_tool_calls s json =
     (let m = report_model s json; s1 = note_warning (after m) json in
      case choices json of
        [ch] \<Rightarrow>
          (case delta ch of
             Some d \<Rightarrow>
               preceded_by (sink m @ usage_counters json @ groq_counters json)
                 (delta_text s1 d)
           | None \<Rightarrow> returned s1 [])
      | _ \<Rightarrow> returned s1 [])"

text \<open>The id and the name in each slot of the accumulator.\<close>

definition call_keys :: "parser_state \<Rightarrow> (string \<times> string) option list" where
  "call_keys s = map (map_option (\<lambda>e. (call_id e, call_name e))) (acc_tool_calls s)"

text \<open>The checks that make the loop throw on an entry for an existing tool call.\<close>

definition rejected :: "tool_call_state \<Rightarrow> delta_tool_call \<Rightarrow> bool" where
  "rejected e tc =
     (bad_type tc \<or> (truthy (tc_id tc) \<and> the (tc_id tc) \<noteq> call_id e)
      \<or> truthy (fn_name (tc_function tc)))"

text \<open>The accumulator after a fragment is appended to the arguments at an index.\<close>

definition extended :: "parser_state \<Rightarrow> nat \<Rightarrow> tool_call_state \<Rightarrow> string \<Rightarrow> parser_state" where
  "extended s i e frag =
     s\<lparr>acc_tool_calls :=
         (acc_tool_calls s)[i := Some (e\<lparr>call_arguments := call_arguments e @ frag\<rparr>)]\<rparr>"

text \<open>Arguments that start absent or present, grown by a list of argument texts.\<close>

definition grown :: "string option \<Rightarrow> string list \<Rightarrow> string option" where
  "grown a frs =
     (case a of
        Some x \<Rightarrow> Some (x @ concat frs)
      | None \<Rightarrow> (case frs of [] \<Rightarrow> None | seed # rest \<Rightarrow> Some (seed @ concat rest)))"

section \<open>Example events\<close>

definition no_delta :: chunk_delta where
  "no_delta = \<lparr>content = ContentUndefined, tool_calls = None\<rparr>"

definition text_choice :: "string \<Rightarrow> chunk_choice" where
  "text_choice f =
     \<lparr>index = Some 0, delta = Some (no_delta\<lparr>content := ContentString f\<rparr>),
      finish_reason = None\<rparr>"

definition bare_chunk :: chunk where
  "bare_chunk =
     \<lparr>model = None, error = None, warning = None, chunk_id = None, object = None,
      usage = None, x_groq = None, choices = []\<rparr>"

text \<open>The two events of the spec's scenario A, the second one with a model of its own.\<close>

definition hel_chunk :: chunk where
  "hel_chunk = bare_chunk\<lparr>model := Some ''m1'', choices := [text_choice ''Hel'']\<rparr>"

definition lo_chunk :: chunk where
  "lo_chunk = bare_chunk\<lparr>model := Some ''m2'', choices := [text_choice ''lo'']\<rparr>"

text \<open>The bookkeeping event of Azure: identity, object type and model are empty strings.\<close>

definition azure_chunk :: chunk where
  "azure_chunk =
     bare_chunk\<lparr>model := Some [], chunk_id := Some [], object := Some []\<rparr>"

definition azure_text_chunk :: chunk where
  "azure_text_chunk = azure_chunk\<lparr>choices := [text_choice ''x'']\<rparr>"

text \<open>The final event of the spec's scenario C, and variants of its usage block.\<close>

definition final_usage_chunk :: chunk where
  "final_usage_chunk =
     bare_chunk\<lparr>usage := Some \<lparr>prompt_tokens = Some 10, completion_tokens = Some 20\<rparr>\<rparr>"

definition prompt_only_chunk :: chunk where
  "prompt_only_chunk =
     bare_chunk\<lparr>usage := Some \<lparr>prompt_tokens = Some 10, completion_tokens = None\<rparr>\<rparr>"

definition zero_prompt_chunk :: chunk where
  "zero_prompt_chunk =
     bare_chunk\<lparr>usage := Some \<lparr>prompt_tokens = Some 0, completion_tokens = Some 20\<rparr>\<rparr>"

definition groq_stats :: wire_x_groq where
  "groq_stats =
     \<lparr>groq_usage = Some \<lparr>groq_prompt_tokens = 7, groq_completion_tokens = 21,
                          groq_completion_time = 1 / 2\<rparr>\<rparr>"

definition groq_chunk :: chunk where
  "groq_chunk = bare_chunk\<lparr>x_groq := Some groq_stats, choices := [text_choice ''ok'']\<rparr>"

definition groq_final_chunk :: chunk where
  "groq_final_chunk = final_usage_chunk\<lparr>x_groq := Some groq_stats\<rparr>"

text \<open>The event of the spec's scenario D, here with a text delta beside the error.\<close>

definition rate_limited :: wire_error where
  "rate_limited = \<lparr>err_message = Some ''rate limited''\<rparr>"

definition error_chunk :: chunk where
  "error_chunk = bare_chunk\<lparr>error := Some rate_limited, choices := [text_choice ''x'']\<rparr>"

definition two_choices_chunk :: chunk where
  "two_choices_chunk = bare_chunk\<lparr>choices := [text_choice ''a'', text_choice ''b'']\<rparr>"

definition empty_response :: response where
  "empty_response =
     \<lparr>ns_model = None, ns_error = None, ns_warning = None, ns_usage = None, ns_choices = []\<rparr>"

text \<open>Tool-call events, after the spec's scenario B.\<close>

definition tool_chunk :: "delta_tool_call list \<Rightarrow> chunk" where
  "tool_chunk tcs =
     bare_chunk\<lparr>choices :=
       [\<lparr>index = Some 0, delta = Some (no_delta\<lparr>tool_calls := Some tcs\<rparr>),
         finish_reason = None\<rparr>]\<rparr>"

definition open_entry :: "nat \<Rightarrow> string \<Rightarrow> string \<Rightarrow> string \<Rightarrow> delta_tool_call" where
  "open_entry i ident nm a =
     \<lparr>tc_index = Some i, tc_id = Some ident, tc_type = Some ''function'',
      tc_function = \<lparr>fn_name = Some nm, fn_arguments = Some a\<rparr>\<rparr>"

definition more_entry :: "nat \<Rightarrow> string \<Rightarrow> delta_tool_call" where
  "more_entry i a =
     \<lparr>tc_index = Some i, tc_id = None, tc_type = None,
      tc_function = \<lparr>fn_name = None, fn_arguments = Some a\<rparr>\<rparr>"

text \<open>An entry with a name only: no index, no id, no type, no arguments.\<close>

definition anon_entry :: "string \<Rightarrow> delta_tool_call" where
  "anon_entry nm =
     \<lparr>tc_index = None, tc_id = None, tc_type = None,
      tc_function = \<lparr>fn_name = Some nm, fn_arguments = None\<rparr>\<rparr>"

text \<open>An entry of another type than \<open>function\<close>, and an event with an error beside a tool call.\<close>

definition custom_entry :: delta_tool_call where
  "custom_entry = (open_entry 0 ''tc1'' ''get_weather'' ''{'')\<lparr>tc_type := Some ''custom''\<rparr>"

definition failed_tool_chunk :: chunk where
  "failed_tool_chunk =
     (tool_chunk [open_entry 0 ''tc1'' ''get_weather'' ''{''])\<lparr>error := Some rate_limited\<rparr>"

text \<open>An entry that only carries an id.\<close>

definition reid_entry :: "nat \<Rightarrow> string \<Rightarrow> delta_tool_call" where
  "reid_entry i ident =
     \<lparr>tc_index = Some i, tc_id = Some ident, tc_type = None,
      tc_function = \<lparr>fn_name = None, fn_arguments = None\<rparr>\<rparr>"

text \<open>The state after the event that opens the tool call \<open>tc1\<close> at index 0.\<close>

definition weather_state :: parser_state where
  "weather_state =
     initial_state\<lparr>acc_tool_calls :=
       [Some \<lparr>call_id = ''tc1'', call_name = ''get_weather'', call_arguments = ''{''\<rparr>]\<rparr>"

section \<open>Basic facts\<close>

lemma returned_simps [simp]:
  "sink (returned s cs) = cs" "after (returned s cs) = s" "thrown (returned s cs) = None"
  by (simp_all add: returned_def)

lemma threw_simps [simp]:
  "sink (threw s cs e) = cs" "after (threw s cs e) = s" "thrown (threw s cs e) = Some e"
  by (simp_all add: threw_def)

lemma preceded_by_simps [simp]:
  "sink (preceded_by cs r) = cs @ sink r" "after (preceded_by cs r) = after r"
  "thrown (preceded_by cs r) = thrown r"
  by (simp_all add: preceded_by_def)

lemma is_tool_call_simps [simp]:
  "is_tool_call (StartFunctionToolCall a b c d)"
  "is_tool_call (AppendFunctionToolCallArgsIStr a b)"
  "\<not> is_tool_call (SetModelName m)"
  "\<not> is_tool_call (SetDialectTerminatingIssue t y)"
  "\<not> is_tool_call (SetCounters k)"
  "\<not> is_tool_call (AppendText t)"
  "\<not> is_tool_call EndMessagePart"
  by (simp_all add: is_tool_call_def)

lemma is_set_model_name_simps [simp]:
  "is_set_model_name (SetModelName m)"
  "\<not> is_set_model_name (StartFunctionToolCall a b c d)"
  "\<not> is_set_model_name (AppendFunctionToolCallArgsIStr a b)"
  "\<not> is_set_model_name (SetDialectTerminatingIssue t y)"
  "\<not> is_set_model_name (SetCounters k)"
  "\<not> is_set_model_name (AppendText t)"
  "\<not> is_set_model_name EndMessagePart"
  by (simp_all add: is_set_model_name_def)

lemma is_append_text_simps [simp]:
  "is_append_text (AppendText t)"
  "\<not> is_append_text (StartFunctionToolCall a b c d)"
  "\<not> is_append_text (AppendFunctionToolCallArgsIStr a b)"
  "\<not> is_append_text (SetDialectTerminatingIssue t y)"
  "\<not> is_append_text (SetCounters k)"
  "\<not> is_append_text (SetModelName m)"
  "\<not> is_append_text EndMessagePart"
  by (simp_all add: is_append_text_def)

lemma is_terminating_issue_simps [simp]:
  "is_terminating_issue (SetDialectTerminatingIssue t y)"
  "\<not> is_terminating_issue (StartFunctionToolCall a b c d)"
  "\<not> is_terminating_issue (AppendFunctionToolCallArgsIStr a b)"
  "\<not> is_terminating_issue (AppendText t)"
  "\<not> is_terminating_issue (SetCounters k)"
  "\<not> is_terminating_issue (SetModelName m)"
  "\<not> is_terminating_issue EndMessagePart"
  by (simp_all add: is_terminating_issue_def)

lemmas example_defs =
  no_delta_def text_choice_def bare_chunk_def hel_chunk_def lo_chunk_def azure_chunk_def
  azure_text_chunk_def
  final_usage_chunk_def prompt_only_chunk_def zero_prompt_chunk_def groq_stats_def
  groq_chunk_def groq_final_chunk_def rate_limited_def error_chunk_def
  two_choices_chunk_def empty_response_def

lemmas parser_defs =
  parse_chunk_def report_model_def note_warning_def is_sentinel_def usage_counters_def
  groq_counters_def parse_choice_def delta_text_def initial_state_def truthy_def
  or_else_def safeErrorString_def js_get_def js_set_def resolve_index_def bad_type_def
  create_call_def preceded_by_def returned_def threw_def Let_def

lemmas tool_defs =
  tool_chunk_def open_entry_def more_entry_def reid_entry_def weather_state_def
  anon_entry_def custom_entry_def failed_tool_chunk_def
  tool_call_entries_def with_tool_calls_def addresses_existing_def event_entries_def
  fragments_for_def entry_arguments_def entry_append_def appends_for_def
  recorded_arguments_def delta_entries_def addressed_fragments_def specified_arguments_def
  text_fragment_def

section \<open>Usage counters\<close>

text \<open>
  C10. In the streaming parser's primary usage reporting, when the usage block has a
  completion-token count and its prompt-token count is absent or zero, the input-token
  counter reported to the sink is -1, not 0.
\<close>

theorem falsy_prompt_tokens_reported_as_minus_one:
  assumes "error json = None" and "\<not> is_sentinel json"
    and "usage json = Some u" and "completion_tokens u = Some out"
    and "prompt_tokens u = None \<or> prompt_tokens u = Some 0"
  shows "\<exists>rest. sink (parse_chunk ses fresh s json)
            = sink (report_model s json) @
              [SetCounters \<lparr>chatIn = - 1, chatOut = out, chatOutRate = None,
                            chatTimeInner = None\<rparr>] @ rest"
  using assms
  by (auto simp: parse_chunk_def Let_def usage_counters_def split: list.splits)

theorem falsy_prompt_tokens_witness:
  "sink (parse_chunk safeErrorString [] initial_state zero_prompt_chunk)
     = [SetCounters \<lparr>chatIn = - 1, chatOut = 20, chatOutRate = None, chatTimeInner = None\<rparr>]"
proof -
  have h: "error zero_prompt_chunk = None" "\<not> is_sentinel zero_prompt_chunk"
    "usage zero_prompt_chunk = Some \<lparr>prompt_tokens = Some 0, completion_tokens = Some 20\<rparr>"
    "completion_tokens \<lparr>prompt_tokens = Some 0, completion_tokens = Some 20\<rparr> = Some 20"
    "prompt_tokens \<lparr>prompt_tokens = Some 0, completion_tokens = Some 20\<rparr> = None
     \<or> prompt_tokens \<lparr>prompt_tokens = Some 0, completion_tokens = Some 20\<rparr> = Some 0"
    by (simp_all add: example_defs is_sentinel_def)
  from falsy_prompt_tokens_reported_as_minus_one [OF h, of safeErrorString "[]" initial_state]
  obtain rest where
    "sink (parse_chunk safeErrorString [] initial_state zero_prompt_chunk)
       = sink (report_model initial_state zero_prompt_chunk) @
         [SetCounters \<lparr>chatIn = - 1, chatOut = 20, chatOutRate = None, chatTimeInner = None\<rparr>]
         @ rest"
    by blast
  moreover have "length (sink (parse_chunk safeErrorString [] initial_state zero_prompt_chunk)) = 1"
    by (simp add: example_defs parser_defs)
  moreover have "sink (report_model initial_state zero_prompt_chunk) = []"
    by (simp add: example_defs parser_defs)
  ultimately show ?thesis by simp
qed

text \<open>
  C5, as the code has it. A streaming chunk that carries no upstream error and is not
  the all-empty bookkeeping event, and whose usage block has a completion-token count,
  makes the parser call setCounters with that count as the output tokens and with the
  prompt-token count as the input tokens, or -1 when the prompt-token count is absent
  or zero. The call follows the model report, if any.
\<close>

theorem primary_usage_reported:
  assumes "error json = None" and "\<not> is_sentinel json"
    and "usage json = Some u" and "completion_tokens u = Some out"
  shows "\<exists>rest. sink (parse_chunk ses fresh s json)
            = sink (report_model s json) @
              [SetCounters \<lparr>chatIn = (case prompt_tokens u of
                                         None \<Rightarrow> - 1
                                       | Some p \<Rightarrow> if p = 0 then - 1 else p),
                            chatOut = out, chatOutRate = None, chatTimeInner = None\<rparr>] @ rest"
  using assms
  by (auto simp: parse_chunk_def Let_def usage_counters_def split: list.splits)

theorem primary_usage_witness:
  "sink (parse_chunk safeErrorString [] initial_state final_usage_chunk)
     = [SetCounters \<lparr>chatIn = 10, chatOut = 20, chatOutRate = None, chatTimeInner = None\<rparr>]"
proof -
  have h: "error final_usage_chunk = None" "\<not> is_sentinel final_usage_chunk"
    "usage final_usage_chunk = Some \<lparr>prompt_tokens = Some 10, completion_tokens = Some 20\<rparr>"
    "completion_tokens \<lparr>prompt_tokens = Some 10, completion_tokens = Some 20\<rparr> = Some 20"
    by (simp_all add: example_defs is_sentinel_def)
  from primary_usage_reported [OF h, of safeErrorString "[]" initial_state]
  obtain rest where
    "sink (parse_chunk safeErrorString [] initial_state final_usage_chunk)
       = sink (report_model initial_state final_usage_chunk) @
         [SetCounters \<lparr>chatIn = 10, chatOut = 20, chatOutRate = None, chatTimeInner = None\<rparr>]
         @ rest"
    by auto
  moreover have "length (sink (parse_chunk safeErrorString [] initial_state final_usage_chunk)) = 1"
    by (simp add: example_defs parser_defs)
  moreover have "sink (report_model initial_state final_usage_chunk) = []"
    by (simp add: example_defs parser_defs)
  ultimately show ?thesis by simp
qed

text \<open>
  C5 as stated fails: a usage block without a completion-token count is not reported
  at all.
\<close>

theorem usage_without_completion_tokens_unreported:
  "usage prompt_only_chunk = Some \<lparr>prompt_tokens = Some 10, completion_tokens = None\<rparr>
   \<and> sink (parse_chunk safeErrorString [] initial_state prompt_only_chunk) = []
   \<and> thrown (parse_chunk safeErrorString [] initial_state prompt_only_chunk) = None"
  by (simp add: example_defs parser_defs)

text \<open>
  C6, as the code has it. A streaming chunk that carries no upstream error, is not the
  all-empty bookkeeping event and is not a final usage-only event (a usage block with an
  empty choice list), and that carries the Groq usage envelope, makes the parser report
  the envelope's input tokens, output tokens, output rate (when tokens and time are both
  non-zero; it is the rounded ratio of the two, whose double arithmetic is left
  unevaluated) and completion time, right after the primary counters, whatever the
  primary usage block holds and however many choices follow.
\<close>

theorem groq_usage_reported:
  assumes "error json = None" and "\<not> is_sentinel json"
    and "\<not> (usage json \<noteq> None \<and> choices json = [])"
    and "x_groq json = Some g" and "groq_usage g = Some u"
  shows "\<exists>rest. sink (parse_chunk ses fresh s json)
            = sink (report_model s json) @ usage_counters json @
              [SetCounters
                 \<lparr>chatIn = groq_prompt_tokens u,
                  chatOut = groq_completion_tokens u,
                  chatOutRate =
                    (if groq_completion_tokens u \<noteq> 0 \<and> groq_completion_time u \<noteq> 0
                     then Some (Rounded_ratio (groq_completion_tokens u)
                                  (groq_completion_time u))
                     else None),
                  chatTimeInner = Some (groq_completion_time u)\<rparr>] @ rest"
  using assms
  by (auto simp: parse_chunk_def Let_def groq_counters_def split: list.splits)

theorem groq_usage_witness:
  "sink (parse_chunk safeErrorString [] initial_state groq_chunk)
     = [SetCounters \<lparr>chatIn = 7, chatOut = 21,
                     chatOutRate = Some (Rounded_ratio 21 (1 / 2)),
                     chatTimeInner = Some (1 / 2)\<rparr>,
        AppendText ''ok'']"
proof -
  have h: "error groq_chunk = None" "\<not> is_sentinel groq_chunk"
    "\<not> (usage groq_chunk \<noteq> None \<and> choices groq_chunk = [])"
    "x_groq groq_chunk = Some groq_stats"
    "groq_usage groq_stats = Some \<lparr>groq_prompt_tokens = 7, groq_completion_tokens = 21,
                                    groq_completion_time = 1 / 2\<rparr>"
    by (simp_all add: example_defs is_sentinel_def)
  from groq_usage_reported [OF h, of safeErrorString "[]" initial_state]
  obtain rest where r:
    "sink (parse_chunk safeErrorString [] initial_state groq_chunk)
       = sink (report_model initial_state groq_chunk) @ usage_counters groq_chunk @
         [SetCounters \<lparr>chatIn = 7, chatOut = 21,
                        chatOutRate = Some (Rounded_ratio 21 (1 / 2)),
                        chatTimeInner = Some (1 / 2)\<rparr>] @ rest"
    by auto
  have "sink (report_model initial_state groq_chunk) = []" "usage_counters groq_chunk = []"
    by (simp_all add: example_defs parser_defs)
  moreover have "drop 1 (sink (parse_chunk safeErrorString [] initial_state groq_chunk))
                   = [AppendText ''ok'']"
    by (simp add: example_defs parser_defs)
  ultimately show ?thesis using r by simp
qed

text \<open>
  C6 as stated fails: when the primary usage block is present and the choice list is
  empty, the parser returns before it looks at the Groq envelope.
\<close>

theorem groq_usage_skipped_on_final_usage_event:
  "x_groq groq_final_chunk = Some groq_stats
   \<and> usage groq_final_chunk \<noteq> None
   \<and> choices groq_final_chunk = []
   \<and> sink (parse_chunk safeErrorString [] initial_state groq_final_chunk)
       = [SetCounters \<lparr>chatIn = 10, chatOut = 20, chatOutRate = None, chatTimeInner = None\<rparr>]
   \<and> thrown (parse_chunk safeErrorString [] initial_state groq_final_chunk) = None"
  by (simp add: example_defs parser_defs)

section \<open>The single-choice contract\<close>

text \<open>
  C7, as the code has it. A streaming chunk that carries no upstream error and is not
  the all-empty bookkeeping event, whose choice list has 0 or 2 and more entries, makes
  the parser throw, except for the final usage-only event (a usage block with an empty
  choice list). A non-streaming response whose choice count is not 1 makes the
  non-streaming parser throw.
\<close>

theorem single_choice_enforced:
  "(error json = None \<and> \<not> is_sentinel json
      \<and> \<not> (usage json \<noteq> None \<and> choices json = [])
      \<and> length (choices json) \<noteq> 1
    \<longrightarrow> thrown (parse_chunk ses fresh s json)
          = Some (ExpectedOneCompletion (length (choices json))))
   \<and> (length (ns_choices resp) \<noteq> 1
    \<longrightarrow> snd (parse_response resp)
          = Some (ExpectedOneCompletion (length (ns_choices resp))))"
  by (auto simp: parse_chunk_def parse_response_def Let_def split: list.splits)

theorem single_choice_witness:
  "thrown (parse_chunk safeErrorString [] initial_state two_choices_chunk)
     = Some (ExpectedOneCompletion 2)
   \<and> snd (parse_response empty_response) = Some (ExpectedOneCompletion 0)"
proof -
  have h: "error two_choices_chunk = None \<and> \<not> is_sentinel two_choices_chunk
      \<and> \<not> (usage two_choices_chunk \<noteq> None \<and> choices two_choices_chunk = [])
      \<and> length (choices two_choices_chunk) \<noteq> 1"
    "length (ns_choices empty_response) \<noteq> 1"
    by (simp_all add: example_defs is_sentinel_def)
  have l: "length (choices two_choices_chunk) = 2" "length (ns_choices empty_response) = 0"
    by (simp_all add: example_defs)
  from single_choice_enforced
         [of two_choices_chunk safeErrorString "[]" initial_state empty_response] h
  show ?thesis by (simp only: l simp_thms)
qed

text \<open>
  C7 as stated fails: the all-empty bookkeeping event has an empty choice list and no
  usage block, and the parser skips it without an error.
\<close>

theorem sentinel_with_no_choices_accepted:
  "choices azure_chunk = [] \<and> usage azure_chunk = None
   \<and> thrown (parse_chunk safeErrorString [] initial_state azure_chunk) = None
   \<and> sink (parse_chunk safeErrorString [] initial_state azure_chunk) = []"
  by (simp add: example_defs parser_defs)

section \<open>Upstream errors\<close>

text \<open>
  C8. A streaming chunk that carries a structured error object makes the parser report
  exactly one terminating issue, whose text is the stringified error or, failing that,
  the text "unknown."; the parser does not throw, and it makes no appendText and no
  tool-call sink call for that event. With the stringifier as the spec describes it, the
  text contains the message of the error object.
\<close>

theorem upstream_error_passthrough:
  assumes "error json = Some e"
  shows "thrown (parse_chunk ses fresh s json) = None
       \<and> filter is_terminating_issue (sink (parse_chunk ses fresh s json))
           = [SetDialectTerminatingIssue (or_else (ses e) ''unknown.'') Generic]
       \<and> filter is_append_text (sink (parse_chunk ses fresh s json)) = []
       \<and> filter is_tool_call (sink (parse_chunk ses fresh s json)) = []
       \<and> (\<forall>m. err_message e = Some m \<longrightarrow>
            (\<exists>t. filter is_terminating_issue (sink (parse_chunk safeErrorString fresh s json))
                   = [SetDialectTerminatingIssue t Generic]
                 \<and> sublist m t))"
  using assms
  by (auto simp: parse_chunk_def Let_def report_model_def safeErrorString_def or_else_def)

theorem upstream_error_witness:
  "thrown (parse_chunk safeErrorString [] initial_state error_chunk) = None
   \<and> filter is_terminating_issue (sink (parse_chunk safeErrorString [] initial_state error_chunk))
       = [SetDialectTerminatingIssue ''rate limited'' Generic]
   \<and> filter is_append_text (sink (parse_chunk safeErrorString [] initial_state error_chunk)) = []
   \<and> filter is_tool_call (sink (parse_chunk safeErrorString [] initial_state error_chunk)) = []"
proof -
  have h: "error error_chunk = Some rate_limited"
    by (simp add: example_defs)
  have m: "or_else (safeErrorString rate_limited) ''unknown.'' = ''rate limited''"
    by (simp add: example_defs or_else_def safeErrorString_def)
  from upstream_error_passthrough [OF h, of safeErrorString "[]" initial_state]
  show ?thesis by (simp only: m simp_thms)
qed

section \<open>Frame properties of the steps\<close>

lemma loop_frame:
  "hasBegun (after (tool_calls_loop fresh s tcs)) = hasBegun s
   \<and> hasWarned (after (tool_calls_loop fresh s tcs)) = hasWarned s
   \<and> acc_content (after (tool_calls_loop fresh s tcs)) = acc_content s
   \<and> list_all is_tool_call (sink (tool_calls_loop fresh s tcs))"
proof (induction tcs arbitrary: s)
  case Nil
  show ?case by simp
next
  case (Cons tc tcs)
  show ?case
    by (simp add: Let_def Cons.IH split: option.splits)
qed

lemma filter_none: "list_all P xs \<Longrightarrow> (\<And>x. P x \<Longrightarrow> \<not> Q x) \<Longrightarrow> filter Q xs = []"
  by (induction xs) auto

lemma loop_sink_tool_calls: "list_all is_tool_call (sink (tool_calls_loop fresh s tcs))"
  using loop_frame by blast

lemma loop_no_model: "filter is_set_model_name (sink (tool_calls_loop fresh s tcs)) = []"
  by (rule filter_none [OF loop_sink_tool_calls])
     (auto simp: is_tool_call_def is_set_model_name_def split: sink_call.splits)

lemma loop_no_text: "filter is_append_text (sink (tool_calls_loop fresh s tcs)) = []"
  by (rule filter_none [OF loop_sink_tool_calls])
     (auto simp: is_tool_call_def is_append_text_def split: sink_call.splits)

lemma choice_model:
  "hasBegun (after (parse_choice fresh s ch)) = hasBegun s
   \<and> filter is_set_model_name (sink (parse_choice fresh s ch)) = []"
  by (auto simp: parse_choice_def delta_text_def Let_def loop_frame loop_no_model
      split: option.splits js_content.splits)

lemma counters_no_model [simp]:
  "filter is_set_model_name (usage_counters json) = []"
  "filter is_set_model_name (groq_counters json) = []"
  by (simp_all add: usage_counters_def groq_counters_def split: option.splits)

lemma counters_no_text [simp]:
  "filter is_append_text (usage_counters json) = []"
  "filter is_append_text (groq_counters json) = []"
  by (simp_all add: usage_counters_def groq_counters_def split: option.splits)

lemma note_warning_frame [simp]:
  "hasBegun (note_warning s json) = hasBegun s"
  "acc_content (note_warning s json) = acc_content s"
  "acc_tool_calls (note_warning s json) = acc_tool_calls s"
  by (simp_all add: note_warning_def)

lemma report_model_frame [simp]:
  "thrown (report_model s json) = None"
  "acc_content (after (report_model s json)) = acc_content s"
  "acc_tool_calls (after (report_model s json)) = acc_tool_calls s"
  "filter is_set_model_name (sink (report_model s json)) = sink (report_model s json)"
  "filter is_append_text (sink (report_model s json)) = []"
  "filter is_tool_call (sink (report_model s json)) = []"
  by (simp_all add: report_model_def)

lemma parse_chunk_model:
  "hasBegun (after (parse_chunk ses fresh s json)) = hasBegun (after (report_model s json))
   \<and> filter is_set_model_name (sink (parse_chunk ses fresh s json))
       = sink (report_model s json)"
proof (cases "error json")
  case (Some e)
  then show ?thesis by (simp add: parse_chunk_def Let_def)
next
  case None
  show ?thesis
  proof (cases "is_sentinel json \<or> (usage json \<noteq> None \<and> choices json = [])")
    case True
    with None show ?thesis
      by (auto simp: parse_chunk_def Let_def)
  next
    case False
    with None show ?thesis
      by (simp add: parse_chunk_def Let_def choice_model split: list.splits)
  qed
qed

lemma run_append:
  "run ses s (xs @ ys) =
     (let r = run ses s xs in
      if thrown r \<noteq> None then r else preceded_by (sink r) (run ses (after r) ys))"
proof (induction xs arbitrary: s)
  case Nil
  show ?case by (simp add: preceded_by_def)
next
  case (Cons ev xs)
  obtain fresh json where ev: "ev = (fresh, json)" by (cases ev)
  show ?case
    by (auto simp: ev Let_def Cons.IH preceded_by_def)
qed

section \<open>The model report\<close>

lemma chunk_begun:
  assumes "hasBegun s"
  shows "hasBegun (after (parse_chunk ses fresh s json))
       \<and> filter is_set_model_name (sink (parse_chunk ses fresh s json)) = []"
  using assms by (simp add: parse_chunk_model report_model_def)

lemma chunk_unnamed:
  assumes "\<not> hasBegun s" "\<not> truthy (model json)"
  shows "\<not> hasBegun (after (parse_chunk ses fresh s json))
       \<and> filter is_set_model_name (sink (parse_chunk ses fresh s json)) = []"
  using assms by (simp add: parse_chunk_model report_model_def)

lemma chunk_named:
  assumes "\<not> hasBegun s" "model json = Some m" "m \<noteq> []"
  shows "hasBegun (after (parse_chunk ses fresh s json))
       \<and> filter is_set_model_name (sink (parse_chunk ses fresh s json)) = [SetModelName m]"
  using assms by (simp add: parse_chunk_model report_model_def truthy_def)

lemma run_begun:
  "hasBegun s \<Longrightarrow> filter is_set_model_name (sink (run ses s evs)) = []"
proof (induction evs arbitrary: s)
  case Nil
  show ?case by simp
next
  case (Cons ev evs)
  obtain fresh json where ev: "ev = (fresh, json)" by (cases ev)
  from chunk_begun [OF Cons.prems] Cons.IH show ?case
    by (simp add: ev Let_def)
qed

lemma run_unnamed:
  assumes "\<not> hasBegun s" "\<forall>ev\<in>set evs. \<not> truthy (model (snd ev))"
  shows "\<not> hasBegun (after (run ses s evs))
       \<and> filter is_set_model_name (sink (run ses s evs)) = []"
  using assms
proof (induction evs arbitrary: s)
  case Nil
  then show ?case by simp
next
  case (Cons ev evs)
  obtain fresh json where ev: "ev = (fresh, json)" by (cases ev)
  have u: "\<not> truthy (model json)" using Cons.prems(2) by (simp add: ev)
  from chunk_unnamed [OF Cons.prems(1) u] Cons.IH Cons.prems(2) show ?case
    by (simp add: ev Let_def)
qed

text \<open>
  C4, as the code has it. In one streaming session, the first processed chunk whose
  model field is a non-empty string makes the parser call setModelName with that
  string, and that is the only setModelName call of the session, whatever models the
  later chunks carry. Chunks before it whose model is absent or the empty string
  report nothing. In particular, for a non-empty sequence of chunks that each carry a
  non-empty model, setModelName is called exactly once, with the first model.
\<close>

theorem model_reported_once:
  assumes "\<forall>ev\<in>set pre. \<not> truthy (model (snd ev))"
    and "thrown (run ses initial_state pre) = None"
    and "model json = Some m" and "m \<noteq> []"
  shows "filter is_set_model_name (sink (run ses initial_state (pre @ (fresh, json) # post)))
           = [SetModelName m]"
proof -
  let ?r = "run ses initial_state pre"
  have nb: "\<not> hasBegun initial_state" by (simp add: initial_state_def)
  from run_unnamed [OF nb assms(1)]
  have p: "\<not> hasBegun (after ?r)" "filter is_set_model_name (sink ?r) = []"
    by simp_all
  from chunk_named [OF p(1) assms(3,4)]
  have c: "hasBegun (after (parse_chunk ses fresh (after ?r) json))"
    "filter is_set_model_name (sink (parse_chunk ses fresh (after ?r) json)) = [SetModelName m]"
    by simp_all
  show ?thesis
    using assms(2) p(2) c(2) run_begun [OF c(1)]
    by (simp add: run_append Let_def)
qed

theorem model_reported_once_witness:
  "filter is_set_model_name
     (sink (run safeErrorString initial_state [([], hel_chunk), ([], lo_chunk)]))
     = [SetModelName ''m1'']"
proof -
  have h: "\<forall>ev\<in>set []. \<not> truthy (model (snd ev))"
    "thrown (run safeErrorString initial_state []) = None"
    "model hel_chunk = Some ''m1''" "''m1'' \<noteq> []"
    by (simp_all add: example_defs)
  from model_reported_once [OF h, of "[]" "[([], lo_chunk)]"]
  show ?thesis by simp
qed

text \<open>
  C4 as stated fails: the first model value seen can be the empty string (the
  bookkeeping event of Azure), which is not reported; the name reported is that of
  the next chunk.
\<close>

theorem empty_model_not_reported:
  "model azure_chunk = Some []
   \<and> model lo_chunk = Some ''m2''
   \<and> filter is_set_model_name
       (sink (run safeErrorString initial_state [([], azure_chunk), ([], lo_chunk)]))
       = [SetModelName ''m2'']
   \<and> filter is_set_model_name
       (sink (run safeErrorString initial_state [([], azure_chunk)])) = []"
  by (simp add: example_defs parser_defs)

section \<open>Reaching the tool-call loop\<close>

lemma preceded_by_twice [simp]:
  "preceded_by cs (preceded_by ds r) = preceded_by (cs @ ds) r"
  by (simp add: preceded_by_def)

lemma preceded_by_nil [simp]: "preceded_by [] r = r"
  by (simp add: preceded_by_def)

lemma chunk_reaches_loop:
  assumes "tool_call_entries json = Some tcs"
  shows "parse_chunk ses fresh s json =
           preceded_by (sink (before_tool_calls s json))
             (tool_calls_loop fresh (after (before_tool_calls s json)) tcs)"
proof -
  from assms obtain ch d where
    ch: "choices json = [ch]" "error json = None" "\<not> is_sentinel json"
      "\<not> (index ch \<noteq> Some 0 \<and> index ch \<noteq> None)"
      "delta ch = Some d"
    by (auto simp: tool_call_entries_def split: if_splits list.splits option.splits)
  from assms ch have d: "\<forall>ty. content d \<noteq> ContentOther ty"
    "tcs = (case tool_calls d of None \<Rightarrow> [] | Some tcs \<Rightarrow> tcs)"
    by (auto simp: tool_call_entries_def split: js_content.splits)
  have t: "thrown (delta_text s' d) = None" for s'
    using d(1) by (simp add: delta_text_def split: js_content.splits)
  have i: "\<not> (index ch \<noteq> Some 0 \<and> index ch \<noteq> None)"
    using ch(4) .
  show ?thesis
    unfolding parse_chunk_def before_tool_calls_def parse_choice_def Let_def
    by (simp only: ch d(2) t i option.simps list.simps if_False if_True simp_thms
          preceded_by_twice preceded_by_simps append_assoc)
qed

lemma before_tool_calls_ok:
  assumes "tool_call_entries json = Some tcs"
  shows "thrown (before_tool_calls s json) = None"
    and "acc_tool_calls (after (before_tool_calls s json)) = acc_tool_calls s"
proof -
  from assms obtain ch d where
    ch: "choices json = [ch]" "delta ch = Some d"
    by (auto simp: tool_call_entries_def split: if_splits list.splits option.splits)
  from assms ch have d: "\<forall>ty. content d \<noteq> ContentOther ty"
    by (auto simp: tool_call_entries_def split: js_content.splits if_splits)
  show "thrown (before_tool_calls s json) = None"
    using ch d by (simp add: before_tool_calls_def Let_def delta_text_def split: js_content.splits)
  show "acc_tool_calls (after (before_tool_calls s json)) = acc_tool_calls s"
    using ch d by (simp add: before_tool_calls_def Let_def delta_text_def split: js_content.splits)
qed

lemma with_tool_calls_fields [simp]:
  "model (with_tool_calls json tcs) = model json"
  "error (with_tool_calls json tcs) = error json"
  "warning (with_tool_calls json tcs) = warning json"
  "chunk_id (with_tool_calls json tcs) = chunk_id json"
  "object (with_tool_calls json tcs) = object json"
  "usage (with_tool_calls json tcs) = usage json"
  "x_groq (with_tool_calls json tcs) = x_groq json"
  by (simp_all add: with_tool_calls_def)

lemma with_tool_calls_steps [simp]:
  "report_model s (with_tool_calls json tcs) = report_model s json"
  "note_warning s (with_tool_calls json tcs) = note_warning s json"
  "usage_counters (with_tool_calls json tcs) = usage_counters json"
  "groq_counters (with_tool_calls json tcs) = groq_counters json"
  "is_sentinel (with_tool_calls json tcs) = is_sentinel json"
  by (simp_all add: report_model_def note_warning_def usage_counters_def groq_counters_def
        is_sentinel_def)

lemma delta_text_tool_calls [simp]:
  "delta_text s (d\<lparr>tool_calls := x\<rparr>) = delta_text s d"
  by (simp add: delta_text_def)

lemma with_tool_calls_single:
  "choices json = [ch] \<Longrightarrow>
   choices (with_tool_calls json tcs)
     = [ch\<lparr>delta := map_option (\<lambda>d. d\<lparr>tool_calls := Some tcs\<rparr>) (delta ch)\<rparr>]"
  by (simp add: with_tool_calls_def)

lemma before_with_tool_calls [simp]:
  "before_tool_calls s (with_tool_calls json tcs) = before_tool_calls s json"
proof (cases "\<exists>ch. choices json = [ch]")
  case True
  then obtain ch where ch: "choices json = [ch]" by blast
  show ?thesis
    by (cases "delta ch")
       (simp_all add: before_tool_calls_def Let_def ch with_tool_calls_single [OF ch])
next
  case False
  then have "\<not> (\<exists>ch. choices (with_tool_calls json tcs) = [ch])"
    by (auto simp: with_tool_calls_def map_eq_Cons_conv)
  with False show ?thesis
    by (auto simp: before_tool_calls_def Let_def split: list.splits)
qed

lemma entries_with_tool_calls:
  assumes "tool_call_entries json = Some tcs"
  shows "tool_call_entries (with_tool_calls json tcs') = Some tcs'"
proof -
  from assms obtain ch d where
    ch: "choices json = [ch]" "error json = None" "\<not> is_sentinel json"
      "\<not> (index ch \<noteq> Some 0 \<and> index ch \<noteq> None)"
      "delta ch = Some d"
    by (auto simp: tool_call_entries_def split: if_splits list.splits option.splits)
  from assms ch have d: "\<forall>ty. content d \<noteq> ContentOther ty"
    by (auto simp: tool_call_entries_def split: js_content.splits)
  show ?thesis
    using ch d
    by (simp add: tool_call_entries_def with_tool_calls_single [OF ch(1)]
          split: js_content.splits)
qed


section \<open>The sparse array of tool calls\<close>




lemma js_get_keys:
  "js_get (call_keys s) i = map_option (\<lambda>e. (call_id e, call_name e)) (js_get (acc_tool_calls s) i)"
  by (simp add: js_get_def call_keys_def)

lemma length_keys: "length (call_keys s) = length (acc_tool_calls s)"
  by (simp add: call_keys_def)

lemma keys_same:
  assumes "call_keys s' = call_keys s"
  shows "length (acc_tool_calls s') = length (acc_tool_calls s)"
    and "resolve_index s' tc = resolve_index s tc"
    and "(js_get (acc_tool_calls s') i = None) = (js_get (acc_tool_calls s) i = None)"
    and "map_option call_id (js_get (acc_tool_calls s') i)
           = map_option call_id (js_get (acc_tool_calls s) i)"
    and "addresses_existing s' tc = addresses_existing s tc"
proof -
  show l: "length (acc_tool_calls s') = length (acc_tool_calls s)"
    using assms length_keys by metis
  show r: "resolve_index s' tc = resolve_index s tc"
    by (cases "tc_index tc") (simp_all add: resolve_index_def l)
  have k: "map_option (\<lambda>e. (call_id e, call_name e)) (js_get (acc_tool_calls s') j)
          = map_option (\<lambda>e. (call_id e, call_name e)) (js_get (acc_tool_calls s) j)" for j
    using assms js_get_keys by metis
  show n: "(js_get (acc_tool_calls s') i = None) = (js_get (acc_tool_calls s) i = None)"
    using k [of i] by (cases "js_get (acc_tool_calls s') i"; cases "js_get (acc_tool_calls s) i") simp_all
  show "map_option call_id (js_get (acc_tool_calls s') i)
           = map_option call_id (js_get (acc_tool_calls s) i)"
    using k [of i] by (cases "js_get (acc_tool_calls s') i"; cases "js_get (acc_tool_calls s) i") simp_all
  show "addresses_existing s' tc = addresses_existing s tc"
    unfolding addresses_existing_def r
    using k [of "resolve_index s tc"]
    by (cases "js_get (acc_tool_calls s') (resolve_index s tc)";
        cases "js_get (acc_tool_calls s) (resolve_index s tc)") simp_all
qed

lemma keys_update:
  assumes "js_get (acc_tool_calls s) i = Some e"
  shows "call_keys (extended s i e frag) = call_keys s"
proof -
  have i: "i < length (acc_tool_calls s)" "acc_tool_calls s ! i = Some e"
    using assms by (simp_all add: js_get_def split: if_splits)
  show ?thesis
    by (rule nth_equalityI) (auto simp: call_keys_def extended_def nth_list_update i)
qed

section \<open>The steps of the tool-call loop\<close>

lemma loop_existing_reject:
  assumes "js_get (acc_tool_calls s) (resolve_index s tc) = Some e" and "rejected e tc"
  shows "\<exists>err. tool_calls_loop fresh s (tc # tcs) = threw s [] err"
  using assms by (auto simp: Let_def rejected_def)

lemma loop_existing_append:
  assumes "js_get (acc_tool_calls s) (resolve_index s tc) = Some e" and "\<not> rejected e tc"
    and "truthy (fn_arguments (tc_function tc))"
  shows "tool_calls_loop fresh s (tc # tcs) =
           preceded_by
             [AppendFunctionToolCallArgsIStr (call_id e) (the (fn_arguments (tc_function tc)))]
             (tool_calls_loop fresh
                (extended s (resolve_index s tc) e (the (fn_arguments (tc_function tc)))) tcs)"
  using assms by (auto simp: Let_def rejected_def extended_def)

lemma loop_existing_skip:
  assumes "js_get (acc_tool_calls s) (resolve_index s tc) = Some e" and "\<not> rejected e tc"
    and "\<not> truthy (fn_arguments (tc_function tc))"
  shows "tool_calls_loop fresh s (tc # tcs) = tool_calls_loop fresh s tcs"
  using assms by (auto simp: Let_def rejected_def)


declare tool_calls_loop.simps(2) [simp del]

lemma loop_prefix_keys:
  assumes "\<forall>p\<in>set pre. addresses_existing s p"
  shows "call_keys (after (tool_calls_loop fresh s pre)) = call_keys s"
  using assms
proof (induction pre arbitrary: s)
  case Nil
  show ?case by simp
next
  case (Cons tc pre)
  from Cons.prems obtain e where
    e: "js_get (acc_tool_calls s) (resolve_index s tc) = Some e"
    by (auto simp: addresses_existing_def)
  let ?s' = "extended s (resolve_index s tc) e (the (fn_arguments (tc_function tc)))"
  have k: "call_keys ?s' = call_keys s"
    by (rule keys_update [OF e])
  have p: "\<forall>p\<in>set pre. addresses_existing s p"
    using Cons.prems by simp
  have p': "\<forall>p\<in>set pre. addresses_existing ?s' p"
    using p keys_same(5) [OF k] by simp
  consider (reject) "rejected e tc"
    | (append) "\<not> rejected e tc" "truthy (fn_arguments (tc_function tc))"
    | (skip) "\<not> rejected e tc" "\<not> truthy (fn_arguments (tc_function tc))"
    by blast
  then show ?case
  proof cases
    case reject
    from loop_existing_reject [OF e reject] obtain err where
      "tool_calls_loop fresh s (tc # pre) = threw s [] err" by blast
    then show ?thesis by simp
  next
    case append
    show ?thesis
      by (simp add: loop_existing_append [OF e append] Cons.IH [OF p'] k)
  next
    case skip
    show ?thesis
      by (simp add: loop_existing_skip [OF e skip] Cons.IH [OF p])
  qed
qed

lemma loop_prefix_append:
  assumes "\<forall>p\<in>set pre. addresses_existing s p"
  shows "tool_calls_loop fresh s (pre @ rest) =
     (if thrown (tool_calls_loop fresh s pre) \<noteq> None then tool_calls_loop fresh s pre
      else preceded_by (sink (tool_calls_loop fresh s pre))
             (tool_calls_loop fresh (after (tool_calls_loop fresh s pre)) rest))"
  using assms
proof (induction pre arbitrary: s)
  case Nil
  show ?case by simp
next
  case (Cons tc pre)
  from Cons.prems obtain e where
    e: "js_get (acc_tool_calls s) (resolve_index s tc) = Some e"
    by (auto simp: addresses_existing_def)
  let ?s' = "extended s (resolve_index s tc) e (the (fn_arguments (tc_function tc)))"
  have k: "call_keys ?s' = call_keys s"
    by (rule keys_update [OF e])
  have p: "\<forall>p\<in>set pre. addresses_existing s p"
    using Cons.prems by simp
  have p': "\<forall>p\<in>set pre. addresses_existing ?s' p"
    using p keys_same(5) [OF k] by simp
  consider (reject) "rejected e tc"
    | (append) "\<not> rejected e tc" "truthy (fn_arguments (tc_function tc))"
    | (skip) "\<not> rejected e tc" "\<not> truthy (fn_arguments (tc_function tc))"
    by blast
  then show ?case
  proof cases
    case reject
    from loop_existing_reject [OF e reject] obtain err err' where
      "tool_calls_loop fresh s (tc # pre) = threw s [] err"
      "tool_calls_loop fresh s (tc # pre @ rest) = threw s [] err'" by blast
    moreover from this have "err' = err"
      using e reject
      by (auto simp: tool_calls_loop.simps(2) Let_def threw_def rejected_def split: if_splits)
    ultimately show ?thesis by simp
  next
    case append
    show ?thesis
      unfolding append_Cons
      by (simp add: loop_existing_append [OF e append] Cons.IH [OF p'])
  next
    case skip
    show ?thesis
      unfolding append_Cons
      by (simp add: loop_existing_skip [OF e skip] Cons.IH [OF p])
  qed
qed


lemma same_calls:
  assumes "acc_tool_calls s' = acc_tool_calls s"
  shows "resolve_index s' tc = resolve_index s tc"
    and "addresses_existing s' tc = addresses_existing s tc"
    and "call_keys s' = call_keys s"
  using assms
  by (simp_all add: resolve_index_def addresses_existing_def call_keys_def
        cong: option.case_cong)

lemma create_call_fields:
  "create_call fresh tc =
     \<lparr>call_id = or_else (tc_id tc) fresh,
      call_name = or_else (fn_name (tc_function tc)) [],
      call_arguments = or_else (fn_arguments (tc_function tc)) []\<rparr>"
  by (simp add: create_call_def)

section \<open>Tool-call creation\<close>





section \<open>Write-once id and name\<close>

text \<open>
  C3, as the code has it. Take a streaming chunk that gets as far as the tool-call loop
  and an entry of its tool-call list that addresses an index with an accumulator entry
  and supplies a different non-empty id, or any non-empty name; the entries before it
  address existing tool calls. Then the parser throws, and the state and the sink calls
  are those of the same event cut before that entry: the entry and those after it
  change nothing.
\<close>

theorem id_and_name_write_once:
  assumes entries: "tool_call_entries json = Some (pre @ tc # post)"
    and existing: "\<forall>p\<in>set pre. addresses_existing s p"
    and addressed: "tc_index tc = Some i" "js_get (acc_tool_calls s) i = Some e"
    and change: "(\<exists>x. tc_id tc = Some x \<and> x \<noteq> [] \<and> x \<noteq> call_id e)
               \<or> (\<exists>n. fn_name (tc_function tc) = Some n \<and> n \<noteq> [])"
  shows "thrown (parse_chunk ses fresh s json) \<noteq> None
       \<and> after (parse_chunk ses fresh s json)
           = after (parse_chunk ses fresh s (with_tool_calls json pre))
       \<and> sink (parse_chunk ses fresh s json)
           = sink (parse_chunk ses fresh s (with_tool_calls json pre))"
proof -
  let ?b = "before_tool_calls s json"
  let ?lp = "tool_calls_loop fresh (after ?b) pre"
  have b: "acc_tool_calls (after ?b) = acc_tool_calls s"
    by (rule before_tool_calls_ok(2) [OF entries])
  have ex: "\<forall>p\<in>set pre. addresses_existing (after ?b) p"
    using existing same_calls(2) [OF b] by simp
  have r: "parse_chunk ses fresh s json
             = preceded_by (sink ?b) (tool_calls_loop fresh (after ?b) (pre @ tc # post))"
    by (rule chunk_reaches_loop [OF entries])
  have w: "parse_chunk ses fresh s (with_tool_calls json pre)
             = preceded_by (sink ?b) ?lp"
    using chunk_reaches_loop [OF entries_with_tool_calls [OF entries], of ses fresh s pre]
    by simp
  have whole: "tool_calls_loop fresh (after ?b) (pre @ tc # post)
          = (if thrown ?lp \<noteq> None then ?lp
             else preceded_by (sink ?lp) (tool_calls_loop fresh (after ?lp) (tc # post)))"
    by (rule loop_prefix_append [OF ex])
  show ?thesis
  proof (cases "thrown ?lp")
    case (Some err)
    then show ?thesis by (simp add: r w whole)
  next
    case None
    have k: "call_keys (after ?lp) = call_keys s"
      using loop_prefix_keys [OF ex] same_calls(3) [OF b] by simp
    have idx: "resolve_index (after ?lp) tc = i"
      by (simp add: resolve_index_def addressed(1))
    from keys_same(4) [OF k, of i] addressed(2) obtain e' where
      e': "js_get (acc_tool_calls (after ?lp)) i = Some e'" "call_id e' = call_id e"
      by (cases "js_get (acc_tool_calls (after ?lp)) i") auto
    have rej: "rejected e' tc"
      using change e'(2) by (auto simp: rejected_def truthy_def)
    from loop_existing_reject [of "after ?lp" tc e' fresh post] e'(1) rej idx
    obtain err where "tool_calls_loop fresh (after ?lp) (tc # post) = threw (after ?lp) [] err"
      by auto
    with None show ?thesis by (simp add: r w whole)
  qed
qed


theorem id_and_name_write_once_witness:
  "thrown (parse_chunk safeErrorString [] weather_state
            (tool_chunk [more_entry 0 ''}'', reid_entry 0 ''other'', more_entry 0 ''x'']))
     \<noteq> None
   \<and> after (parse_chunk safeErrorString [] weather_state
            (tool_chunk [more_entry 0 ''}'', reid_entry 0 ''other'', more_entry 0 ''x'']))
       = after (parse_chunk safeErrorString [] weather_state
            (with_tool_calls
               (tool_chunk [more_entry 0 ''}'', reid_entry 0 ''other'', more_entry 0 ''x''])
               [more_entry 0 ''}'']))
   \<and> sink (parse_chunk safeErrorString [] weather_state
            (tool_chunk [more_entry 0 ''}'', reid_entry 0 ''other'', more_entry 0 ''x'']))
       = sink (parse_chunk safeErrorString [] weather_state
            (with_tool_calls
               (tool_chunk [more_entry 0 ''}'', reid_entry 0 ''other'', more_entry 0 ''x''])
               [more_entry 0 ''}'']))"
proof (rule id_and_name_write_once
         [where pre = "[more_entry 0 ''}'']" and tc = "reid_entry 0 ''other''"
            and post = "[more_entry 0 ''x'']" and i = 0
            and e = "\<lparr>call_id = ''tc1'', call_name = ''get_weather'',
                       call_arguments = ''{''\<rparr>"])
  show "tool_call_entries
          (tool_chunk [more_entry 0 ''}'', reid_entry 0 ''other'', more_entry 0 ''x''])
          = Some ([more_entry 0 ''}''] @ reid_entry 0 ''other'' # [more_entry 0 ''x''])"
    by (simp add: example_defs tool_defs is_sentinel_def)
  show "\<forall>p\<in>set [more_entry 0 ''}'']. addresses_existing weather_state p"
    by (simp add: example_defs tool_defs parser_defs)
  show "tc_index (reid_entry 0 ''other'') = Some 0"
    by (simp add: tool_defs)
  show "js_get (acc_tool_calls weather_state) 0
          = Some \<lparr>call_id = ''tc1'', call_name = ''get_weather'', call_arguments = ''{''\<rparr>"
    by (simp add: tool_defs parser_defs)
  show "(\<exists>x. tc_id (reid_entry 0 ''other'') = Some x \<and> x \<noteq> []
             \<and> x \<noteq> call_id \<lparr>call_id = ''tc1'', call_name = ''get_weather'',
                                call_arguments = ''{''\<rparr>)
        \<or> (\<exists>n. fn_name (tc_function (reid_entry 0 ''other'')) = Some n \<and> n \<noteq> [])"
    by (simp add: tool_defs)
qed

text \<open>
  C3 as stated fails: after the tool call \<open>tc1\<close> exists at index 0, an event that
  first opens a tool call at index 1 and then supplies another id for index 0 is
  accepted, because the loop stops after the creation; the id of index 0 stays.
\<close>

theorem id_change_after_creation_ignored:
  "after (parse_chunk safeErrorString [] initial_state
            (tool_chunk [open_entry 0 ''tc1'' ''get_weather'' ''{''])) = weather_state
   \<and> tc_id (reid_entry 0 ''other'') = Some ''other''
   \<and> thrown (parse_chunk safeErrorString [] weather_state
              (tool_chunk [open_entry 1 ''tc2'' ''get_time'' [], reid_entry 0 ''other'']))
       = None
   \<and> map_option call_id
       (js_get (acc_tool_calls (after (parse_chunk safeErrorString [] weather_state
              (tool_chunk [open_entry 1 ''tc2'' ''get_time'' [], reid_entry 0 ''other''])))) 0)
       = Some ''tc1''"
  by (simp add: example_defs parser_defs tool_defs tool_calls_loop.simps)

section \<open>Text accumulation\<close>

lemma chunk_text:
  assumes "error json = None" and "\<not> is_sentinel json" and "text_fragment json = Some f"
    and "thrown (parse_chunk ses fresh s json) = None"
  shows "acc_content (after (parse_chunk ses fresh s json)) = Some (or_else (acc_content s) [] @ f)
       \<and> filter is_append_text (sink (parse_chunk ses fresh s json)) = [AppendText f]"
proof -
  from assms(3) obtain ch d where
    ch: "choices json = [ch]" "delta ch = Some d" "content d = ContentString f"
    by (auto simp: text_fragment_def split: list.splits option.splits js_content.splits)
  have i: "\<not> (index ch \<noteq> Some 0 \<and> index ch \<noteq> None)"
  proof
    assume "index ch \<noteq> Some 0 \<and> index ch \<noteq> None"
    then have "thrown (parse_chunk ses fresh s json) \<noteq> None"
      using assms(1,2) ch by (simp add: parse_chunk_def Let_def parse_choice_def)
    with assms(4) show False by simp
  qed
  have e: "tool_call_entries json = Some (case tool_calls d of None \<Rightarrow> [] | Some tcs \<Rightarrow> tcs)"
    using assms(1,2) ch i by (simp add: tool_call_entries_def)
  have b: "acc_content (after (before_tool_calls s json)) = Some (or_else (acc_content s) [] @ f)"
    "filter is_append_text (sink (before_tool_calls s json)) = [AppendText f]"
    using ch by (simp_all add: before_tool_calls_def Let_def delta_text_def)
  show ?thesis
    by (simp add: chunk_reaches_loop [OF e] loop_frame loop_no_text b)
qed

lemma or_else_Some_Nil [simp]: "or_else (Some x) [] = x"
  by (simp add: or_else_def)

lemma run_text:
  assumes "\<forall>ev\<in>set evs. error (snd ev) = None \<and> \<not> is_sentinel (snd ev)"
    and "map (\<lambda>ev. text_fragment (snd ev)) evs = map Some fs"
    and "thrown (run ses s evs) = None"
  shows "acc_content (after (run ses s evs))
           = (if fs = [] then acc_content s else Some (or_else (acc_content s) [] @ concat fs))
       \<and> filter is_append_text (sink (run ses s evs)) = map AppendText fs"
  using assms
proof (induction evs arbitrary: s fs)
  case Nil
  then show ?case by simp
next
  case (Cons ev evs)
  obtain fresh json where ev: "ev = (fresh, json)" by (cases ev)
  from Cons.prems(2) obtain f fs' where
    fs: "fs = f # fs'" "text_fragment json = Some f"
      "map (\<lambda>ev. text_fragment (snd ev)) evs = map Some fs'"
    by (cases fs) (auto simp: ev)
  let ?r = "parse_chunk ses fresh s json"
  have t: "thrown ?r = None" "thrown (run ses (after ?r) evs) = None"
    using Cons.prems(3) by (auto simp: ev Let_def split: if_splits)
  have r: "error json = None" "\<not> is_sentinel json"
    "\<forall>ev\<in>set evs. error (snd ev) = None \<and> \<not> is_sentinel (snd ev)"
    using Cons.prems(1) by (simp_all add: ev)
  note c = chunk_text [OF r(1,2) fs(2) t(1)]
  note ih = Cons.IH [OF r(3) fs(3) t(2)]
  show ?case
    using t(1) c ih by (simp add: ev fs(1) Let_def)
qed



text \<open>
  C1, as the code has it. Take a sequence of chunks that carry no upstream error and
  are not the bookkeeping event, whose single choice carries the string content
  fragments f1..fk, and that the parser processes in arrival order, from the start of a
  session, without throwing.
  Then the accumulator's content is the concatenation of f1..fk (it is still absent when
  the sequence is empty), and the appendText calls of the session are one per fragment,
  each with exactly that fragment, in arrival order.
\<close>

theorem text_accumulated:
  assumes "\<forall>ev\<in>set evs. error (snd ev) = None \<and> \<not> is_sentinel (snd ev)"
    and "map (\<lambda>ev. text_fragment (snd ev)) evs = map Some fs"
    and "thrown (run ses initial_state evs) = None"
  shows "acc_content (after (run ses initial_state evs))
           = (if fs = [] then None else Some (concat fs))
       \<and> filter is_append_text (sink (run ses initial_state evs)) = map AppendText fs"
proof -
  have i: "acc_content initial_state = None" by (simp add: initial_state_def)
  show ?thesis
    using run_text [OF assms] unfolding i by (simp add: or_else_def)
qed

theorem text_accumulated_witness:
  "acc_content (after (run safeErrorString initial_state [([], hel_chunk), ([], lo_chunk)]))
     = Some ''Hello''
   \<and> filter is_append_text
       (sink (run safeErrorString initial_state [([], hel_chunk), ([], lo_chunk)]))
       = [AppendText ''Hel'', AppendText ''lo'']"
proof -
  have h: "\<forall>ev\<in>set [([], hel_chunk), ([], lo_chunk)].
             error (snd ev) = None \<and> \<not> is_sentinel (snd ev)"
    "map (\<lambda>ev. text_fragment (snd ev)) [([], hel_chunk), ([], lo_chunk)]
       = map Some [''Hel'', ''lo'']"
    "thrown (run safeErrorString initial_state [([], hel_chunk), ([], lo_chunk)]) = None"
    by (simp_all add: example_defs tool_defs parser_defs tool_calls_loop.simps)
  show ?thesis
    using text_accumulated [OF h] by simp
qed

text \<open>
  C1 as stated fails: the single choice of an event can carry a string content that
  the parser never reads, because the event also carries an upstream error, or is the
  bookkeeping event; nothing is appended and the content stays absent.
\<close>

theorem text_ignored_on_error_and_sentinel_events:
  "text_fragment error_chunk = Some ''x''
   \<and> thrown (run safeErrorString initial_state [([], error_chunk)]) = None
   \<and> filter is_append_text (sink (run safeErrorString initial_state [([], error_chunk)])) = []
   \<and> acc_content (after (run safeErrorString initial_state [([], error_chunk)])) = None
   \<and> text_fragment azure_text_chunk = Some ''x''
   \<and> thrown (run safeErrorString initial_state [([], azure_text_chunk)]) = None
   \<and> sink (run safeErrorString initial_state [([], azure_text_chunk)]) = []
   \<and> acc_content (after (run safeErrorString initial_state [([], azure_text_chunk)])) = None"
  by (simp add: example_defs parser_defs tool_defs)

section \<open>Argument accumulation\<close>

lemma is_args_append_simps [simp]:
  "is_args_append (AppendFunctionToolCallArgsIStr a b)"
  "\<not> is_args_append (StartFunctionToolCall a b c d)"
  "\<not> is_args_append (SetModelName m)"
  "\<not> is_args_append (SetDialectTerminatingIssue t y)"
  "\<not> is_args_append (SetCounters k)"
  "\<not> is_args_append (AppendText t)"
  "\<not> is_args_append EndMessagePart"
  by (simp_all add: is_args_append_def)


lemma grown_nil [simp]: "grown a [] = a"
  by (cases a) (simp_all add: grown_def)












lemma counters_no_tool_call [simp]:
  "filter is_tool_call (usage_counters json) = []"
  "filter is_tool_call (groq_counters json) = []"
  by (simp_all add: usage_counters_def groq_counters_def split: option.splits)

lemma delta_text_frame [simp]:
  "acc_tool_calls (after (delta_text s d)) = acc_tool_calls s"
  "filter is_tool_call (sink (delta_text s d)) = []"
  by (simp_all add: delta_text_def split: js_content.splits)














end
